theory Spec2Isabelle
  imports Complex_Main "HOL-Library.Multiset" "HOL-Library.List_Lexorder"
begin

section \<open>Errors\<close>

text \<open>
  The Python exceptions the modelled code can raise. A function that may raise returns
  \<open>error + 'a\<close>, with \<open>Inl\<close> for the exception.
\<close>

datatype error = ValueError | IndexError | KeyError

type_synonym KeySeq = "int list"

section \<open>Effort model (app/effort.py)\<close>

subsection \<open>Enumerations and their ordering values\<close>

datatype RepeatType = REP | SFS | SFB | RSFT | SFT

datatype RowDiffType =
    RowDiff2u
  | MiddleBelowIndex2u
  | MiddleBelowPinky1u
  | IndexBelowPinky2u
  | MiddleBelowRing2u
  | PinkyBelowRing2u
  | MiddleBelowPinky2u
  | RingBelowPinky1u
  | RingBelowPinky2u

datatype DirectionType =
    Redirect1
  | InwardsPinkyMiddle
  | InwardsPinkyRing
  | OutwardsMiddlePinky
  | Redirect2
  | OutwardsRingPinky
  | Redirect3
  | Redirect4

text \<open>The value of each \<open>DirectionType\<close> member; \<open>OrderedStrEnum\<close> compares by it.\<close>

fun DirectionType_value :: "DirectionType \<Rightarrow> rat" where
  "DirectionType_value Redirect1 = 4 / 10"
| "DirectionType_value InwardsPinkyMiddle = 8 / 10"
| "DirectionType_value InwardsPinkyRing = 15 / 10"
| "DirectionType_value OutwardsMiddlePinky = 25 / 10"
| "DirectionType_value Redirect2 = 31 / 10"
| "DirectionType_value OutwardsRingPinky = 7"
| "DirectionType_value Redirect3 = 10"
| "DirectionType_value Redirect4 = 25"

text \<open>
  \<open>FingerType\<close>: the members \<open>T, I, M, R, P\<close> under the module's aliases
  \<open>Thumb, Index, Middle, Ring, Pinky\<close>.
\<close>

datatype FingerType = Thumb | Index | Middle | Ring | Pinky

text \<open>\<open>FingerType.from_str\<close>: a dictionary lookup, \<open>KeyError\<close> on any other string.\<close>

definition from_str :: "string \<Rightarrow> error + FingerType" where
  "from_str finger =
     (if finger = ''t'' then Inr Thumb
      else if finger = ''i'' then Inr Index
      else if finger = ''m'' then Inr Middle
      else if finger = ''r'' then Inr Ring
      else if finger = ''p'' then Inr Pinky
      else Inl KeyError)"

text \<open>Python's two-argument \<open>max(a, b)\<close>: \<open>b\<close> only when it is strictly greater.\<close>

definition max_direction :: "DirectionType \<Rightarrow> DirectionType \<Rightarrow> DirectionType" where
  "max_direction a b = (if DirectionType_value a < DirectionType_value b then b else a)"

subsection \<open>Classification of finger pairs and triples\<close>

definition get_rowdiff_for_bigram ::
  "FingerType \<Rightarrow> int \<Rightarrow> FingerType \<Rightarrow> int \<Rightarrow> RowDiffType option" where
  "get_rowdiff_for_bigram finger1 row1 finger2 row2 =
     (let lower_finger = (if row1 < row2 then finger2 else finger1);
          higher_finger = (if row2 < row1 then finger2 else finger1);
          diff = \<bar>row1 - row2\<bar>
      in if diff = 0 then None
         else if lower_finger = Middle \<and> higher_finger = Index then
           (if diff = 2 then Some MiddleBelowIndex2u else None)
         else if lower_finger = Middle \<and> higher_finger = Pinky then
           (if diff = 1 then Some MiddleBelowPinky1u
            else if diff = 2 then Some MiddleBelowPinky2u else None)
         else if lower_finger = Pinky \<and> higher_finger = Ring then
           (if diff = 2 then Some PinkyBelowRing2u else None)
         else if lower_finger = Ring \<and> higher_finger = Pinky then
           (if diff = 1 then Some RingBelowPinky1u
            else if diff = 2 then Some RingBelowPinky2u else None)
         else if lower_finger = Index \<and> higher_finger = Pinky then
           (if diff = 2 then Some IndexBelowPinky2u else None)
         else if lower_finger = Middle \<and> higher_finger = Ring then
           (if diff = 2 then Some MiddleBelowRing2u else None)
         else if diff = 2 then Some RowDiff2u
         else None)"

definition get_direction_for_bigram :: "FingerType \<Rightarrow> FingerType \<Rightarrow> DirectionType option" where
  "get_direction_for_bigram finger1 finger2 =
     (if finger1 = Pinky \<and> finger2 = Ring then Some InwardsPinkyRing
      else if finger1 = Pinky \<and> finger2 = Middle then Some InwardsPinkyMiddle
      else if finger1 = Middle \<and> finger2 = Pinky then Some OutwardsMiddlePinky
      else if finger1 = Ring \<and> finger2 = Pinky then Some OutwardsRingPinky
      else None)"

definition get_direction_for_trigram ::
  "FingerType \<Rightarrow> FingerType \<Rightarrow> FingerType \<Rightarrow> DirectionType option" where
  "get_direction_for_trigram finger1 finger2 finger3 =
     (let fingers = (finger1, finger2, finger3) in
      if fingers = (Ring, Index, Middle) \<or> fingers = (Middle, Ring, Index)
         \<or> fingers = (Index, Ring, Middle) \<or> fingers = (Middle, Index, Ring)
      then Some Redirect1
      else if fingers = (Middle, Index, Pinky) \<or> fingers = (Ring, Index, Pinky)
         \<or> fingers = (Pinky, Index, Middle) \<or> fingers = (Pinky, Index, Ring)
      then Some Redirect2
      else if fingers = (Index, Pinky, Middle) \<or> fingers = (Middle, Pinky, Index)
         \<or> fingers = (Index, Pinky, Ring) \<or> fingers = (Ring, Pinky, Index)
      then Some Redirect3
      else if fingers = (Pinky, Middle, Ring) \<or> fingers = (Middle, Pinky, Ring)
         \<or> fingers = (Ring, Pinky, Middle) \<or> fingers = (Ring, Middle, Pinky)
      then Some Redirect4
      else
        (let bigram1 = get_direction_for_bigram finger1 finger2;
             bigram2 = get_direction_for_bigram finger2 finger3
         in case bigram1 of
              None \<Rightarrow> bigram2
            | Some b1 \<Rightarrow> (case bigram2 of
                           None \<Rightarrow> bigram1
                         | Some b2 \<Rightarrow> Some (max_direction b1 b2))))"

subsection \<open>The hand layout\<close>

datatype HandType = Left | Right

text \<open>
  Class \<open>Hand\<close>. Each dictionary is an association list, looked up with \<open>map_of\<close>;
  an empty dictionary is the empty list.
\<close>

record Hand =
  hand :: HandType
  symbols :: "(int \<times> string) list"
  fingers :: "(int \<times> string) list"
  key_categories :: "(int \<times> string) list"
  colors :: "(int \<times> string) list"
  matrix_positions :: "(int \<times> (int \<times> int)) list"

text \<open>
  \<open>Hand.get_finger\<close>: \<open>None\<close> for a missing key or an empty string, else
  \<open>from_str\<close>, which raises on an unknown finger name.
\<close>

definition get_finger :: "Hand \<Rightarrow> int \<Rightarrow> error + FingerType option" where
  "get_finger h key_idx =
     (case map_of (fingers h) key_idx of
        None \<Rightarrow> Inr None
      | Some f \<Rightarrow>
          (if f = [] then Inr None
           else (case from_str f of Inl e \<Rightarrow> Inl e | Inr ft \<Rightarrow> Inr (Some ft))))"

text \<open>
  The length-3 part of \<open>Hand.get_repeats_tuple\<close>, after the three finger lookups:
  only \<open>f2\<close> and \<open>f0\<close> are tested for \<open>None\<close>.
\<close>

definition repeats_of_trigram ::
  "int \<Rightarrow> int \<Rightarrow> int \<Rightarrow> FingerType option \<Rightarrow> FingerType option \<Rightarrow> FingerType option
   \<Rightarrow> (RepeatType \<times> FingerType) option" where
  "repeats_of_trigram k0 k1 k2 f0 f1 f2 =
     (case f2 of
        None \<Rightarrow> None
      | Some g2 \<Rightarrow>
         (case f0 of
            None \<Rightarrow> None
          | Some g0 \<Rightarrow>
             (if f0 = f2 \<and> f0 \<noteq> f1 then Some (SFS, g0)
              else if f0 = f2 \<and> f0 = f1 then
                (if k0 = k1 \<and> k1 = k2 then Some (REP, g0)
                 else if k0 = k1 \<or> k1 = k2 then Some (RSFT, g0)
                 else Some (SFT, g0))
              else if f0 = f1 then
                (if k0 = k1 then Some (REP, g0) else Some (SFB, g0))
              else if f1 = f2 then Some (SFB, g2)
              else None)))"

definition repeats_of_bigram ::
  "int \<Rightarrow> int \<Rightarrow> FingerType option \<Rightarrow> FingerType option
   \<Rightarrow> (RepeatType \<times> FingerType) option" where
  "repeats_of_bigram k0 k1 f0 f1 =
     (case f0 of
        None \<Rightarrow> None
      | Some g0 \<Rightarrow>
         (if f0 = f1 then (if k0 = k1 then Some (REP, g0) else Some (SFB, g0))
          else None))"

definition get_repeats_tuple ::
  "Hand \<Rightarrow> KeySeq \<Rightarrow> error + (RepeatType \<times> FingerType) option" where
  "get_repeats_tuple h key_seq =
     (if fingers h = [] then Inr None
      else if length key_seq = 0 then Inr None
      else if length key_seq > 3 then Inl ValueError
      else if length key_seq = 1 then Inr None
      else
        (case get_finger h (key_seq ! 0) of
           Inl e \<Rightarrow> Inl e
         | Inr f0 \<Rightarrow>
            (case get_finger h (key_seq ! 1) of
               Inl e \<Rightarrow> Inl e
             | Inr f1 \<Rightarrow>
                (if length key_seq = 2
                 then Inr (repeats_of_bigram (key_seq ! 0) (key_seq ! 1) f0 f1)
                 else
                   (case get_finger h (key_seq ! 2) of
                      Inl e \<Rightarrow> Inl e
                    | Inr f2 \<Rightarrow>
                        Inr (repeats_of_trigram (key_seq ! 0) (key_seq ! 1) (key_seq ! 2)
                               f0 f1 f2))))))"

text \<open>
  \<open>Hand.get_rowdiff\<close>. The result is a tuple of one or two row-difference types, here a
  list. On the empty sequence \<open>key_seq[0]\<close> raises \<open>IndexError\<close>.
\<close>

definition get_rowdiff :: "Hand \<Rightarrow> KeySeq \<Rightarrow> error + RowDiffType list option" where
  "get_rowdiff h key_seq =
     (if length key_seq = 1 then Inr None
      else if length key_seq > 3 then Inl ValueError
      else if key_seq = [] then Inl IndexError
      else
        (case get_finger h (key_seq ! 0) of
           Inl e \<Rightarrow> Inl e
         | Inr finger1 \<Rightarrow>
        (case get_finger h (key_seq ! 1) of
           Inl e \<Rightarrow> Inl e
         | Inr finger2 \<Rightarrow>
        (case (finger1, finger2) of
           (Some fg1, Some fg2) \<Rightarrow>
             (case (map_of (matrix_positions h) (key_seq ! 0),
                    map_of (matrix_positions h) (key_seq ! 1)) of
                (Some coord1, Some coord2) \<Rightarrow>
                  (let row1 = snd coord1; row2 = snd coord2;
                       diff1 = get_rowdiff_for_bigram fg1 row1 fg2 row2
                   in if length key_seq = 2 then
                        (case diff1 of None \<Rightarrow> Inr None | Some d1 \<Rightarrow> Inr (Some [d1]))
                      else
                        (case get_finger h (key_seq ! 2) of
                           Inl e \<Rightarrow> Inl e
                         | Inr None \<Rightarrow> Inr None
                         | Inr (Some fg3) \<Rightarrow>
                            (case map_of (matrix_positions h) (key_seq ! 2) of
                               None \<Rightarrow> Inr None
                             | Some coord3 \<Rightarrow>
                                (let row3 = snd coord3;
                                     diff2 = get_rowdiff_for_bigram fg2 row2 fg3 row3
                                 in case diff2 of
                                      None \<Rightarrow>
                                        (case diff1 of
                                           None \<Rightarrow> Inr None
                                         | Some d1 \<Rightarrow> Inr (Some [d1]))
                                    | Some d2 \<Rightarrow>
                                        (case diff1 of
                                           None \<Rightarrow> Inr (Some [d2])
                                         | Some d1 \<Rightarrow> Inr (Some [d1, d2]))))))
              | _ \<Rightarrow> Inr None)
         | _ \<Rightarrow> Inr None))))"

definition get_direction :: "Hand \<Rightarrow> KeySeq \<Rightarrow> error + DirectionType option" where
  "get_direction h key_seq =
     (if length key_seq \<le> 1 then Inr None
      else if length key_seq > 3 then Inl ValueError
      else
        (case get_finger h (key_seq ! 0) of
           Inl e \<Rightarrow> Inl e
         | Inr finger1 \<Rightarrow>
        (case get_finger h (key_seq ! 1) of
           Inl e \<Rightarrow> Inl e
         | Inr finger2 \<Rightarrow>
        (case (finger1, finger2) of
           (Some fg1, Some fg2) \<Rightarrow>
             (if length key_seq = 2 then Inr (get_direction_for_bigram fg1 fg2)
              else
                (case get_finger h (key_seq ! 2) of
                   Inl e \<Rightarrow> Inl e
                 | Inr None \<Rightarrow> Inr None
                 | Inr (Some fg3) \<Rightarrow> Inr (get_direction_for_trigram fg1 fg2 fg3)))
         | _ \<Rightarrow> Inr None))))"

subsection \<open>Permutation generator\<close>

text \<open>\<open>key in hand.symbols\<close> for every key of the permutation, stopping at the first miss.\<close>

fun can_be_typed :: "Hand \<Rightarrow> KeySeq \<Rightarrow> bool" where
  "can_be_typed h [] = True"
| "can_be_typed h (key # rest) =
     (if map_of (symbols h) key = None then False else can_be_typed h rest)"

definition permutation_is_typable :: "Hand \<Rightarrow> Hand \<Rightarrow> KeySeq \<Rightarrow> bool" where
  "permutation_is_typable l r permutation =
     (if can_be_typed l permutation then True
      else if can_be_typed r permutation then True
      else False)"

definition get_union_of_keys :: "Hand \<Rightarrow> Hand \<Rightarrow> int list" where
  "get_union_of_keys l r = sort (remdups (map fst (symbols l) @ map fst (symbols r)))"

text \<open>
  \<open>itertools.product(xs, repeat=n)\<close>: all tuples of length \<open>n\<close>, the first position
  varying slowest.
\<close>

fun product_repeat :: "'a list \<Rightarrow> nat \<Rightarrow> 'a list list" where
  "product_repeat xs 0 = [[]]"
| "product_repeat xs (Suc n) = concat (map (\<lambda>x. map ((#) x) (product_repeat xs n)) xs)"

text \<open>
  The outer loop of \<open>create_permutations\<close> over the requested lengths, with the list
  built so far. \<open>itertools.product\<close> raises \<open>ValueError\<close> on a negative \<open>repeat\<close>.
\<close>

fun create_permutations_loop ::
  "Hand \<Rightarrow> Hand \<Rightarrow> int list \<Rightarrow> int list \<Rightarrow> KeySeq list \<Rightarrow> error + KeySeq list" where
  "create_permutations_loop l r key_indices [] permutations_lst = Inr permutations_lst"
| "create_permutations_loop l r key_indices (seq_length # rest) permutations_lst =
     (if seq_length < 0 then Inl ValueError
      else create_permutations_loop l r key_indices rest
             (permutations_lst @
              filter (permutation_is_typable l r)
                (product_repeat key_indices (nat seq_length))))"

definition create_permutations :: "Hand \<Rightarrow> Hand \<Rightarrow> int list \<Rightarrow> error + KeySeq list" where
  "create_permutations l r sequence_lengths =
     create_permutations_loop l r (get_union_of_keys l r) sequence_lengths []"

section \<open>Placement manager (app/sort_app/placement_manager.py)\<close>

datatype SideName = SideLeft | SideRight

record NgramPlacementState =
  highest_low :: "KeySeq option"
  lowest_high :: "KeySeq option"
  low_effort_sequences :: "KeySeq list"
  hight_effort_sequences :: "KeySeq list"

text \<open>
  \<open>n / 2 != midpoint\<close> compares the true quotient with the floor quotient.
\<close>

definition split_ordered_ngrams_into_two_halfs ::
  "KeySeq list \<Rightarrow> SideName \<Rightarrow> NgramPlacementState" where
  "split_ordered_ngrams_into_two_halfs ordered_key_sequences larger_size =
     (let n = length ordered_key_sequences;
          midpoint0 = n div 2;
          midpoint = (if (of_nat n / 2 :: rat) \<noteq> of_nat midpoint0 \<and> larger_size = SideLeft
                      then midpoint0 + 1 else midpoint0);
          low = take midpoint ordered_key_sequences;
          high = drop midpoint ordered_key_sequences
      in \<lparr> highest_low = (if low \<noteq> [] then Some (last low) else None),
           lowest_high = (if high \<noteq> [] then Some (hd high) else None),
           low_effort_sequences = low,
           hight_effort_sequences = high \<rparr>)"

text \<open>
  The manager object. \<open>refresh_count\<close> counts the calls of \<open>refresh_callback\<close>, the only
  trace the callback leaves in the model.
\<close>

record NgramPlacementManager =
  all_ngrams :: "KeySeq list"
  current_index :: nat
  current_ngram :: KeySeq
  ordered_ngrams :: "KeySeq list"
  current_ngram_movement_history :: "NgramPlacementState list"
  placement_state :: NgramPlacementState
  refresh_count :: nat

definition refresh_callback :: "NgramPlacementManager \<Rightarrow> NgramPlacementManager" where
  "refresh_callback m = m\<lparr>refresh_count := refresh_count m + 1\<rparr>"

definition is_finished :: "NgramPlacementManager \<Rightarrow> bool" where
  "is_finished m = (length (ordered_ngrams m) \<ge> length (all_ngrams m))"

definition left_of_current :: "NgramPlacementManager \<Rightarrow> KeySeq option" where
  "left_of_current m = highest_low (placement_state m)"

definition right_of_current :: "NgramPlacementManager \<Rightarrow> KeySeq option" where
  "right_of_current m = lowest_high (placement_state m)"

definition ngrams_left_side_of_current :: "NgramPlacementManager \<Rightarrow> KeySeq list" where
  "ngrams_left_side_of_current m = low_effort_sequences (placement_state m)"

definition ngrams_right_side_of_current :: "NgramPlacementManager \<Rightarrow> KeySeq list" where
  "ngrams_right_side_of_current m = hight_effort_sequences (placement_state m)"

text \<open>\<open>list.index\<close>: the first position of the value, \<open>None\<close> where Python raises.\<close>

fun list_index :: "'a list \<Rightarrow> 'a \<Rightarrow> nat option" where
  "list_index [] x = None"
| "list_index (y # ys) x =
     (if y = x then Some 0
      else (case list_index ys x of None \<Rightarrow> None | Some i \<Rightarrow> Some (Suc i)))"

text \<open>\<open>list.insert(i, x)\<close> for \<open>i \<ge> 0\<close>: past the end it appends.\<close>

definition list_insert :: "'a list \<Rightarrow> nat \<Rightarrow> 'a \<Rightarrow> 'a list" where
  "list_insert xs i x = take i xs @ x # drop i xs"

text \<open>
  A method that can raise returns the exception or the value, paired with the manager
  as the call leaves it.
\<close>

definition start_placing_next_ngram ::
  "NgramPlacementManager \<Rightarrow> (error + unit) \<times> NgramPlacementManager" where
  "start_placing_next_ngram m =
     (if current_index m < length (all_ngrams m) then
        (Inr (),
         refresh_callback
           (m\<lparr>current_ngram := all_ngrams m ! current_index m,
              placement_state := split_ordered_ngrams_into_two_halfs (ordered_ngrams m) SideRight,
              current_ngram_movement_history := []\<rparr>))
      else (Inl IndexError, m))"

text \<open>
  The constructor. \<open>placement_state\<close> does not exist before
  \<open>_start_placing_next_ngram\<close> sets it; when that call raises, no object is built.
\<close>

definition init :: "KeySeq list \<Rightarrow> error + NgramPlacementManager" where
  "init permutations =
     (case start_placing_next_ngram
             \<lparr> all_ngrams = permutations, current_index = 0, current_ngram = [],
               ordered_ngrams = [], current_ngram_movement_history = [],
               placement_state = split_ordered_ngrams_into_two_halfs [] SideRight,
               refresh_count = 0 \<rparr> of
        (Inl e, _) \<Rightarrow> Inl e
      | (Inr _, m) \<Rightarrow> Inr m)"

text \<open>The insertion step of \<open>place_current_ngram\<close>: the new \<open>ordered_ngrams\<close>.\<close>

definition insert_current :: "NgramPlacementManager \<Rightarrow> error + KeySeq list" where
  "insert_current m =
     (case left_of_current m of
        Some l \<Rightarrow>
          (case list_index (ordered_ngrams m) l of
             None \<Rightarrow> Inl ValueError
           | Some idx_left \<Rightarrow> Inr (list_insert (ordered_ngrams m) (idx_left + 1) (current_ngram m)))
      | None \<Rightarrow>
          (case right_of_current m of
             Some r \<Rightarrow>
               (case list_index (ordered_ngrams m) r of
                  None \<Rightarrow> Inl ValueError
                | Some idx_right \<Rightarrow> Inr (list_insert (ordered_ngrams m) idx_right (current_ngram m)))
           | None \<Rightarrow> Inr (ordered_ngrams m @ [current_ngram m])))"

definition place_current_ngram ::
  "NgramPlacementManager \<Rightarrow> (error + KeySeq option) \<times> NgramPlacementManager" where
  "place_current_ngram m =
     (if is_finished m then (Inr None, m)
      else
        (case insert_current m of
           Inl e \<Rightarrow> (Inl e, m)
         | Inr ordered' \<Rightarrow>
            (let ngram_placed = current_ngram m;
                 m1 = m\<lparr>ordered_ngrams := ordered', current_index := current_index m + 1\<rparr>
             in if \<not> is_finished m1 then
                  (case start_placing_next_ngram m1 of
                     (Inl e, m2) \<Rightarrow> (Inl e, m2)
                   | (Inr _, m2) \<Rightarrow> (Inr (Some ngram_placed), m2))
                else (Inr (Some ngram_placed), refresh_callback m1))))"

definition move_left :: "NgramPlacementManager \<Rightarrow> NgramPlacementManager" where
  "move_left m =
     (if left_of_current m = None \<or> is_finished m then m
      else refresh_callback
             (m\<lparr>current_ngram_movement_history :=
                   current_ngram_movement_history m @ [placement_state m],
                placement_state :=
                   split_ordered_ngrams_into_two_halfs (ngrams_left_side_of_current m) SideRight\<rparr>))"

definition move_right :: "NgramPlacementManager \<Rightarrow> NgramPlacementManager" where
  "move_right m =
     (if right_of_current m = None \<or> is_finished m then m
      else refresh_callback
             (m\<lparr>current_ngram_movement_history :=
                   current_ngram_movement_history m @ [placement_state m],
                placement_state :=
                   split_ordered_ngrams_into_two_halfs (ngrams_right_side_of_current m) SideLeft\<rparr>))"

definition move_back :: "NgramPlacementManager \<Rightarrow> NgramPlacementManager" where
  "move_back m =
     (if is_finished m then m
      else refresh_callback
             (if current_ngram_movement_history m \<noteq> [] then
                m\<lparr>placement_state := last (current_ngram_movement_history m),
                  current_ngram_movement_history := butlast (current_ngram_movement_history m)\<rparr>
              else m))"

definition reset_current_ngram ::
  "NgramPlacementManager \<Rightarrow> (error + unit) \<times> NgramPlacementManager" where
  "reset_current_ngram m =
     (if is_finished m then (Inr (), m)
      else
        (case start_placing_next_ngram m of
           (Inl e, m1) \<Rightarrow> (Inl e, m1)
         | (Inr _, m1) \<Rightarrow> (Inr (), refresh_callback m1)))"

definition previous_ngram ::
  "NgramPlacementManager \<Rightarrow> (error + unit) \<times> NgramPlacementManager" where
  "previous_ngram m =
     (if current_index m < 1 then reset_current_ngram m
      else if \<not> current_index m - 1 < length (all_ngrams m) then (Inl IndexError, m)
      else
        (let prev_ngram = all_ngrams m ! (current_index m - 1) in
         if prev_ngram \<notin> set (ordered_ngrams m) then (Inl ValueError, m)
         else
           (case start_placing_next_ngram
                   (m\<lparr>ordered_ngrams := remove1 prev_ngram (ordered_ngrams m),
                      current_index := current_index m - 1\<rparr>) of
              (Inl e, m1) \<Rightarrow> (Inl e, m1)
            | (Inr _, m1) \<Rightarrow> (Inr (), refresh_callback m1))))"

definition load_state ::
  "NgramPlacementManager \<Rightarrow> KeySeq list \<Rightarrow> (error + unit) \<times> NgramPlacementManager" where
  "load_state m new_ordered_ngrams =
     (let n_new = length new_ordered_ngrams in
      if set new_ordered_ngrams \<noteq> set (take n_new (all_ngrams m)) then (Inl ValueError, m)
      else
        (let m1 = m\<lparr>ordered_ngrams := new_ordered_ngrams, current_index := n_new\<rparr> in
         if \<not> is_finished m1 then start_placing_next_ngram m1
         else (Inr (), refresh_callback m1)))"

section \<open>Reference data for the properties\<close>

text \<open>
  The table in the docstring of \<open>DirectionType\<close>: all 24 orderings of three different
  fingers among pinky, ring, middle and index, in the docstring's row order, each with
  the direction the docstring gives it (\<open>None\<close> for rows 19 and 24).
\<close>

definition documented_trigrams ::
  "((FingerType \<times> FingerType \<times> FingerType) \<times> DirectionType option) list" where
  "documented_trigrams =
     [((Pinky, Ring, Middle), Some InwardsPinkyRing),
      ((Pinky, Ring, Index), Some InwardsPinkyRing),
      ((Pinky, Middle, Ring), Some Redirect4),
      ((Pinky, Index, Ring), Some Redirect2),
      ((Pinky, Middle, Index), Some InwardsPinkyMiddle),
      ((Pinky, Index, Middle), Some Redirect2),
      ((Ring, Pinky, Middle), Some Redirect4),
      ((Ring, Pinky, Index), Some Redirect3),
      ((Middle, Pinky, Ring), Some Redirect4),
      ((Index, Pinky, Ring), Some Redirect3),
      ((Middle, Pinky, Index), Some Redirect3),
      ((Index, Pinky, Middle), Some Redirect3),
      ((Ring, Middle, Pinky), Some Redirect4),
      ((Ring, Index, Pinky), Some Redirect2),
      ((Middle, Ring, Pinky), Some OutwardsRingPinky),
      ((Index, Ring, Pinky), Some OutwardsRingPinky),
      ((Middle, Index, Pinky), Some Redirect2),
      ((Index, Middle, Pinky), Some OutwardsMiddlePinky),
      ((Ring, Middle, Index), None),
      ((Ring, Index, Middle), Some Redirect1),
      ((Middle, Ring, Index), Some Redirect1),
      ((Index, Ring, Middle), Some Redirect1),
      ((Middle, Index, Ring), Some Redirect1),
      ((Index, Middle, Ring), None)]"

fun is_redirect :: "DirectionType \<Rightarrow> bool" where
  "is_redirect Redirect1 = True"
| "is_redirect Redirect2 = True"
| "is_redirect Redirect3 = True"
| "is_redirect Redirect4 = True"
| "is_redirect _ = False"

text \<open>The redirect a finger triple has in the documented table, if any.\<close>

definition redirect_of :: "FingerType \<times> FingerType \<times> FingerType \<Rightarrow> DirectionType option" where
  "redirect_of fs =
     (case map_of documented_trigrams fs of
        Some (Some d) \<Rightarrow> (if is_redirect d then Some d else None)
      | _ \<Rightarrow> None)"

text \<open>
  The effort ordering of \<open>DirectionType\<close> as the specification lists it, from least to
  most effort, and the rank of each member in that list.
\<close>

definition effort_order :: "DirectionType list" where
  "effort_order =
     [Redirect1, InwardsPinkyMiddle, InwardsPinkyRing, OutwardsMiddlePinky,
      Redirect2, OutwardsRingPinky, Redirect3, Redirect4]"

fun effort_rank :: "DirectionType \<Rightarrow> nat" where
  "effort_rank Redirect1 = 0"
| "effort_rank InwardsPinkyMiddle = 1"
| "effort_rank InwardsPinkyRing = 2"
| "effort_rank OutwardsMiddlePinky = 3"
| "effort_rank Redirect2 = 4"
| "effort_rank OutwardsRingPinky = 5"
| "effort_rank Redirect3 = 6"
| "effort_rank Redirect4 = 7"

text \<open>
  The greater of two optional directions in the listed effort ordering, or whichever
  is present.
\<close>

definition greater_direction ::
  "DirectionType option \<Rightarrow> DirectionType option \<Rightarrow> DirectionType option" where
  "greater_direction a b =
     (case a of
        None \<Rightarrow> b
      | Some x \<Rightarrow>
          (case b of
             None \<Rightarrow> Some x
           | Some y \<Rightarrow> Some (if effort_rank x < effort_rank y then y else x)))"

text \<open>
  The manager built from the universe \<open>[(0,)]\<close> after its single placement.
\<close>

definition finished_manager_example :: NgramPlacementManager where
  "finished_manager_example =
     \<lparr> all_ngrams = [[0]], current_index = 1, current_ngram = [0],
       ordered_ngrams = [[0]], current_ngram_movement_history = [],
       placement_state =
         \<lparr> highest_low = None, lowest_high = None,
           low_effort_sequences = [], hight_effort_sequences = [] \<rparr>,
       refresh_count = 2 \<rparr>"

text \<open>
  A hand whose key 1 has no finger, between two keys of the index finger.
\<close>

definition skipgram_hand :: Hand where
  "skipgram_hand =
     \<lparr> hand = Left, symbols = [(0, ''a''), (1, ''b''), (2, ''c'')],
       fingers = [(0, ''i''), (2, ''i'')], key_categories = [], colors = [],
       matrix_positions = [] \<rparr>"

text \<open>
  A hand with finger and position for the keys 4, 9 and 10, and neither for key 2.
\<close>

definition rowdiff_hand :: Hand where
  "rowdiff_hand =
     \<lparr> hand = Left, symbols = [(2, ''a''), (4, ''b''), (9, ''c''), (10, ''d'')],
       fingers = [(4, ''i''), (9, ''m''), (10, ''r'')], key_categories = [], colors = [],
       matrix_positions = [(4, (3, 0)), (9, (2, 2)), (10, (1, 0))] \<rparr>"

definition no_fingers_hand :: Hand where
  "no_fingers_hand =
     \<lparr> hand = Left, symbols = [(0, ''a''), (1, ''b''), (2, ''c''), (3, ''d'')],
       fingers = [], key_categories = [], colors = [], matrix_positions = [] \<rparr>"

text \<open>
  A well-formed layout names fingers as \<open>from_str\<close> knows them (or leaves the name
  empty): the configuration loader copies the names unchecked.
\<close>

definition finger_names_valid :: "Hand \<Rightarrow> bool" where
  "finger_names_valid h =
     list_all (\<lambda>kf. snd kf \<in> set ['''', ''t'', ''i'', ''m'', ''r'', ''p'']) (fingers h)"

text \<open>
  The row-difference result of a trigram from those of its two bigrams: both in order,
  or the one that classifies, or nothing.
\<close>

definition pair_rowdiffs ::
  "RowDiffType option \<Rightarrow> RowDiffType option \<Rightarrow> RowDiffType list option" where
  "pair_rowdiffs d01 d12 =
     (case d01 of
        Some a \<Rightarrow> (case d12 of Some b \<Rightarrow> Some [a, b] | None \<Rightarrow> Some [a])
      | None \<Rightarrow> (case d12 of Some b \<Rightarrow> Some [b] | None \<Rightarrow> None))"

text \<open>
  The manager freshly built from the universe \<open>[(0,), ..., (6,)]\<close>.
\<close>

definition fresh_manager_example :: NgramPlacementManager where
  "fresh_manager_example =
     \<lparr> all_ngrams = [[0], [1], [2], [3], [4], [5], [6]], current_index = 0,
       current_ngram = [0], ordered_ngrams = [], current_ngram_movement_history = [],
       placement_state =
         \<lparr> highest_low = None, lowest_high = None,
           low_effort_sequences = [], hight_effort_sequences = [] \<rparr>,
       refresh_count = 1 \<rparr>"

text \<open>The key indices of a hand: the keys of its symbol dictionary.\<close>

definition hand_keys :: "Hand \<Rightarrow> int set" where
  "hand_keys h = set (map fst (symbols h))"

text \<open>The two hands of \<open>TestCreatePermutations\<close>.\<close>

definition permutations_left_example :: Hand where
  "permutations_left_example =
     \<lparr> hand = Left, symbols = [(0, ''x''), (1, ''y''), (2, ''z'')],
       fingers = [], key_categories = [], colors = [], matrix_positions = [] \<rparr>"

definition permutations_right_example :: Hand where
  "permutations_right_example =
     \<lparr> hand = Right, symbols = [(0, ''a''), (1, ''b''), (2, ''c''), (3, ''d'')],
       fingers = [], key_categories = [], colors = [], matrix_positions = [] \<rparr>"

text \<open>
  \<open>place_current_ngram()\<close> called \<open>n\<close> times in a row; the first exception ends the run.
\<close>

fun place_times :: "nat \<Rightarrow> NgramPlacementManager \<Rightarrow> error + NgramPlacementManager" where
  "place_times 0 m = Inr m"
| "place_times (Suc n) m =
     (case place_current_ngram m of
        (Inl e, _) \<Rightarrow> Inl e
      | (Inr _, m') \<Rightarrow> place_times n m')"

text \<open>
  The manager after \<open>k\<close> placements with no narrowing: the first \<open>k\<close> universe elements are
  placed, and the next one is in play between the two halves of the whole order.
\<close>

definition default_placing :: "KeySeq list \<Rightarrow> nat \<Rightarrow> NgramPlacementManager \<Rightarrow> bool" where
  "default_placing perms k m =
     (all_ngrams m = perms \<and> current_index m = k \<and> length (ordered_ngrams m) = k
      \<and> mset (ordered_ngrams m) = mset (take k perms)
      \<and> (k < length perms \<longrightarrow>
            current_ngram m = perms ! k
            \<and> placement_state m = split_ordered_ngrams_into_two_halfs (ordered_ngrams m) SideRight))"

text \<open>
  The managers a client can reach over the universe \<open>permutations\<close>: the constructed one,
  and the manager any public operation leaves behind, whether it returned or raised.
\<close>

inductive reachable :: "KeySeq list \<Rightarrow> NgramPlacementManager \<Rightarrow> bool"
  for permutations :: "KeySeq list" where
  constructed: "init permutations = Inr m \<Longrightarrow> reachable permutations m"
| placed: "reachable permutations m \<Longrightarrow> place_current_ngram m = (res, m')
           \<Longrightarrow> reachable permutations m'"
| moved_left: "reachable permutations m \<Longrightarrow> reachable permutations (move_left m)"
| moved_right: "reachable permutations m \<Longrightarrow> reachable permutations (move_right m)"
| moved_back: "reachable permutations m \<Longrightarrow> reachable permutations (move_back m)"
| reset: "reachable permutations m \<Longrightarrow> reset_current_ngram m = (res_unit, m')
          \<Longrightarrow> reachable permutations m'"
| previous: "reachable permutations m \<Longrightarrow> previous_ngram m = (res_unit, m')
             \<Longrightarrow> reachable permutations m'"
| loaded: "reachable permutations m \<Longrightarrow> load_state m new_ordered_ngrams = (res_unit, m')
           \<Longrightarrow> reachable permutations m'"

text \<open>
  The ordered ngrams are the first \<open>current_index\<close> universe elements in some order, and
  an unfinished manager is placing the universe element at the cursor.
\<close>

definition prefix_invariant :: "KeySeq list \<Rightarrow> NgramPlacementManager \<Rightarrow> bool" where
  "prefix_invariant perms m =
     (all_ngrams m = perms
      \<and> length (ordered_ngrams m) = current_index m
      \<and> set (ordered_ngrams m) = set (take (current_index m) perms)
      \<and> (\<not> is_finished m \<longrightarrow> current_ngram m = perms ! current_index m))"

section \<open>Properties\<close>

subsection \<open>Auxiliary facts\<close>

lemma half_neq_iff_odd: "((of_nat n / 2 :: rat) \<noteq> of_nat (n div 2)) = odd n"
proof (cases "even n")
  case True
  then obtain k where "n = 2 * k" by (auto elim: evenE)
  then show ?thesis by simp
next
  case False
  then obtain k where k: "n = 2 * k + 1" by (auto elim: oddE)
  have "(of_nat n / 2 :: rat) = of_nat k + 1 / 2" unfolding k by (simp add: field_simps)
  moreover have "n div 2 = k" unfolding k by simp
  ultimately show ?thesis using False by simp
qed

lemma split_eq:
  "split_ordered_ngrams_into_two_halfs xs side =
     (let midpoint = (if odd (length xs) \<and> side = SideLeft then length xs div 2 + 1
                      else length xs div 2)
      in \<lparr> highest_low = (if take midpoint xs \<noteq> [] then Some (last (take midpoint xs)) else None),
           lowest_high = (if drop midpoint xs \<noteq> [] then Some (hd (drop midpoint xs)) else None),
           low_effort_sequences = take midpoint xs,
           hight_effort_sequences = drop midpoint xs \<rparr>)"
  unfolding split_ordered_ngrams_into_two_halfs_def Let_def half_neq_iff_odd by simp

lemma finished_manager_example_reached:
  "init [[0]] = Inr m0 \<Longrightarrow> place_current_ngram m0 = (Inr (Some [0]), finished_manager_example)"
  by (auto simp: init_def start_placing_next_ngram_def place_current_ngram_def split_eq
        refresh_callback_def is_finished_def insert_current_def left_of_current_def
        right_of_current_def finished_manager_example_def)

subsection \<open>Construction\<close>

text \<open>
  C10. Constructing the manager with an empty universe fails with an index error: the
  constructor starts placing \<open>all_ngrams[0]\<close> unconditionally.
\<close>

theorem init_empty_universe_fails: "init [] = Inl IndexError"
  by (simp add: init_def start_placing_next_ngram_def)

subsection \<open>Operations on a finished manager\<close>

text \<open>
  C8. Once the manager is finished, \<open>move_left\<close>, \<open>move_right\<close>, \<open>move_back\<close> and
  \<open>place_current_ngram\<close> leave the whole manager (ordered ngrams, cursor, placement state,
  undo history, and the callback count) as it was, and \<open>place_current_ngram\<close> returns
  \<open>None\<close>.
\<close>

theorem finished_operations_are_noops:
  "is_finished m \<Longrightarrow>
     move_left m = m \<and> move_right m = m \<and> move_back m = m
     \<and> place_current_ngram m = (Inr None, m)"
  by (simp add: move_left_def move_right_def move_back_def place_current_ngram_def)

theorem finished_operations_are_noops_witness:
  "is_finished finished_manager_example
   \<and> move_left finished_manager_example = finished_manager_example
   \<and> move_right finished_manager_example = finished_manager_example
   \<and> move_back finished_manager_example = finished_manager_example
   \<and> place_current_ngram finished_manager_example = (Inr None, finished_manager_example)"
proof -
  have fin: "is_finished finished_manager_example"
    by (simp add: is_finished_def finished_manager_example_def)
  from finished_operations_are_noops [OF fin] fin show ?thesis by simp
qed

subsection \<open>Directions of trigrams\<close>

text \<open>
  C5. \<open>get_direction_for_trigram\<close> gives every finger triple that the documented table
  of 24 orderings marks as a redirect its redirect level, and every other triple the
  greater of the directions of its two bigrams in the listed effort ordering, or
  whichever is present, or nothing. The values the code compares by increase strictly
  along the listed ordering, and rank every pair of members as the list does. The table
  holds 24 different triples of pairwise different fingers, the function agrees with
  every row of it, the five triples of the specification evaluate as stated, and on the
  four triples whose two bigrams both have a direction the result is the one of greater
  effort, whether it comes first or second.
\<close>

theorem get_direction_for_trigram_table:
  "get_direction_for_trigram f1 f2 f3 =
     (case redirect_of (f1, f2, f3) of
        Some d \<Rightarrow> Some d
      | None \<Rightarrow> greater_direction (get_direction_for_bigram f1 f2)
                  (get_direction_for_bigram f2 f3))
   \<and> sorted_wrt (<) (map DirectionType_value effort_order)
   \<and> map effort_rank effort_order = [0, 1, 2, 3, 4, 5, 6, 7]
   \<and> (DirectionType_value a < DirectionType_value b) = (effort_rank a < effort_rank b)
   \<and> length documented_trigrams = 24
   \<and> distinct (map fst documented_trigrams)
   \<and> list_all (\<lambda>(fs, d). distinct [fst fs, fst (snd fs), snd (snd fs)]) documented_trigrams
   \<and> map (\<lambda>(fs, d). get_direction_for_trigram (fst fs) (fst (snd fs)) (snd (snd fs)))
         documented_trigrams = map snd documented_trigrams
   \<and> get_direction_for_trigram Middle Index Ring = Some Redirect1
   \<and> get_direction_for_trigram Middle Index Pinky = Some Redirect2
   \<and> get_direction_for_trigram Middle Pinky Index = Some Redirect3
   \<and> get_direction_for_trigram Middle Pinky Ring = Some Redirect4
   \<and> get_direction_for_trigram Index Middle Ring = None
   \<and> get_direction_for_bigram Pinky Ring = Some InwardsPinkyRing
   \<and> get_direction_for_bigram Ring Pinky = Some OutwardsRingPinky
   \<and> get_direction_for_bigram Pinky Middle = Some InwardsPinkyMiddle
   \<and> get_direction_for_bigram Middle Pinky = Some OutwardsMiddlePinky
   \<and> get_direction_for_trigram Pinky Ring Pinky = Some OutwardsRingPinky
   \<and> get_direction_for_trigram Ring Pinky Ring = Some OutwardsRingPinky
   \<and> get_direction_for_trigram Pinky Middle Pinky = Some OutwardsMiddlePinky
   \<and> get_direction_for_trigram Middle Pinky Middle = Some OutwardsMiddlePinky"
proof -
  have ranks: "(DirectionType_value a < DirectionType_value b) = (effort_rank a < effort_rank b)"
    by (cases a; cases b) simp_all
  have general: "get_direction_for_trigram f1 f2 f3 =
     (case redirect_of (f1, f2, f3) of
        Some d \<Rightarrow> Some d
      | None \<Rightarrow> greater_direction (get_direction_for_bigram f1 f2)
                  (get_direction_for_bigram f2 f3))"
    by (cases f1; cases f2; cases f3)
       (simp_all add: get_direction_for_trigram_def redirect_of_def documented_trigrams_def
          greater_direction_def get_direction_for_bigram_def max_direction_def)
  have order_facts: "sorted_wrt (<) (map DirectionType_value effort_order)"
    "map effort_rank effort_order = [0, 1, 2, 3, 4, 5, 6, 7]"
    by (simp_all add: effort_order_def)
  have rows: "map (\<lambda>(fs, d). get_direction_for_trigram (fst fs) (fst (snd fs)) (snd (snd fs)))
         documented_trigrams = map snd documented_trigrams"
    by (simp add: documented_trigrams_def get_direction_for_trigram_def
          get_direction_for_bigram_def max_direction_def)
  have shape: "length documented_trigrams = 24" "distinct (map fst documented_trigrams)"
    "list_all (\<lambda>(fs, d). distinct [fst fs, fst (snd fs), snd (snd fs)]) documented_trigrams"
    by (simp_all add: documented_trigrams_def)
  have spec_values: "get_direction_for_trigram Middle Index Ring = Some Redirect1"
    "get_direction_for_trigram Middle Index Pinky = Some Redirect2"
    "get_direction_for_trigram Middle Pinky Index = Some Redirect3"
    "get_direction_for_trigram Middle Pinky Ring = Some Redirect4"
    "get_direction_for_trigram Index Middle Ring = None"
    by (simp_all add: get_direction_for_trigram_def get_direction_for_bigram_def)
  have bigrams: "get_direction_for_bigram Pinky Ring = Some InwardsPinkyRing"
    "get_direction_for_bigram Ring Pinky = Some OutwardsRingPinky"
    "get_direction_for_bigram Pinky Middle = Some InwardsPinkyMiddle"
    "get_direction_for_bigram Middle Pinky = Some OutwardsMiddlePinky"
    by (simp_all add: get_direction_for_bigram_def)
  have both_present: "get_direction_for_trigram Pinky Ring Pinky = Some OutwardsRingPinky"
    "get_direction_for_trigram Ring Pinky Ring = Some OutwardsRingPinky"
    "get_direction_for_trigram Pinky Middle Pinky = Some OutwardsMiddlePinky"
    "get_direction_for_trigram Middle Pinky Middle = Some OutwardsMiddlePinky"
    by (simp_all add: get_direction_for_trigram_def get_direction_for_bigram_def
          max_direction_def)
  from general order_facts ranks rows shape spec_values bigrams both_present
  show ?thesis by blast
qed

subsection \<open>Repeats of trigrams\<close>

text \<open>
  What \<open>get_repeats_tuple\<close> does guard in a length-3 sequence: a missing first or third
  finger gives no classification.
\<close>

lemma get_repeats_tuple_outer_finger_missing:
  assumes "get_finger h k0 = Inr f0" and "get_finger h k1 = Inr f1"
    and "get_finger h k2 = Inr f2" and "f0 = None \<or> f2 = None"
  shows "get_repeats_tuple h [k0, k1, k2] = Inr None"
proof (cases "fingers h = []")
  case True
  then show ?thesis by (simp add: get_repeats_tuple_def)
next
  case False
  with assms show ?thesis
    by (auto simp: get_repeats_tuple_def repeats_of_trigram_def split: option.splits)
qed

text \<open>
  C1 requires no classification for a length-3 sequence whenever any of the three
  finger lookups fails. The code does not do that for the middle key: on a hand where
  keys 0 and 2 are on the index finger and key 1 has no finger, the sequence \<open>(0, 1, 2)\<close>
  is classified as a same-finger skipgram, because \<open>f0 != f1\<close> holds for a missing
  \<open>f1\<close> and the guard tests only \<open>f2\<close> and \<open>f0\<close>. On the same hand the bigram branch of
  the same method, \<open>get_rowdiff\<close> and \<open>get_direction\<close> all give no classification once
  the finger of key 1 is missing.
\<close>

theorem get_repeats_tuple_middle_finger_unresolved:
  "get_finger skipgram_hand 0 = Inr (Some Index)
   \<and> get_finger skipgram_hand 1 = Inr None
   \<and> get_finger skipgram_hand 2 = Inr (Some Index)
   \<and> get_repeats_tuple skipgram_hand [0, 1, 2] = Inr (Some (SFS, Index))
   \<and> get_repeats_tuple skipgram_hand [0, 1] = Inr None
   \<and> get_repeats_tuple skipgram_hand [1, 2] = Inr None
   \<and> get_rowdiff skipgram_hand [0, 1, 2] = Inr None
   \<and> get_direction skipgram_hand [0, 1, 2] = Inr None"
  by (simp add: get_finger_def skipgram_hand_def from_str_def get_repeats_tuple_def
        repeats_of_trigram_def repeats_of_bigram_def get_rowdiff_def get_direction_def)

subsection \<open>Row differences of trigrams\<close>

text \<open>
  C2, as the code has it. For a length-3 key sequence whose three finger lookups return,
  \<open>get_rowdiff\<close> gives no classification whenever the finger or the matrix position of
  any of the three keys is missing. When all six resolve, it classifies the bigrams
  \<open>(0,1)\<close> and \<open>(1,2)\<close> independently and returns both results in that order, or the
  single one that classifies, or no classification.
\<close>

theorem get_rowdiff_trigram:
  assumes "get_finger h k0 = Inr f0" and "get_finger h k1 = Inr f1"
    and "get_finger h k2 = Inr f2"
  shows "(f0 = None \<or> f1 = None \<or> f2 = None
          \<or> map_of (matrix_positions h) k0 = None
          \<or> map_of (matrix_positions h) k1 = None
          \<or> map_of (matrix_positions h) k2 = None
          \<longrightarrow> get_rowdiff h [k0, k1, k2] = Inr None)
       \<and> (f0 = Some g0 \<and> f1 = Some g1 \<and> f2 = Some g2
          \<and> map_of (matrix_positions h) k0 = Some c0
          \<and> map_of (matrix_positions h) k1 = Some c1
          \<and> map_of (matrix_positions h) k2 = Some c2
          \<longrightarrow> get_rowdiff h [k0, k1, k2] =
                Inr (pair_rowdiffs (get_rowdiff_for_bigram g0 (snd c0) g1 (snd c1))
                       (get_rowdiff_for_bigram g1 (snd c1) g2 (snd c2))))"
  using assms
  by (auto simp: get_rowdiff_def pair_rowdiffs_def Let_def split: option.splits)

theorem get_rowdiff_trigram_witness:
  "get_finger rowdiff_hand 10 = Inr (Some Ring)
   \<and> get_finger rowdiff_hand 9 = Inr (Some Middle)
   \<and> get_finger rowdiff_hand 4 = Inr (Some Index)
   \<and> get_finger rowdiff_hand 2 = Inr None
   \<and> get_rowdiff rowdiff_hand [10, 9, 4] = Inr (Some [MiddleBelowRing2u, MiddleBelowIndex2u])
   \<and> get_rowdiff rowdiff_hand [10, 4, 9] = Inr (Some [MiddleBelowIndex2u])
   \<and> get_rowdiff rowdiff_hand [9, 4, 2] = Inr None"
proof -
  have f10: "get_finger rowdiff_hand 10 = Inr (Some Ring)"
    and f9: "get_finger rowdiff_hand 9 = Inr (Some Middle)"
    and f4: "get_finger rowdiff_hand 4 = Inr (Some Index)"
    and f2: "get_finger rowdiff_hand 2 = Inr None"
    by (simp_all add: get_finger_def rowdiff_hand_def from_str_def)
  have pos: "map_of (matrix_positions rowdiff_hand) 10 = Some (1, 0)"
    "map_of (matrix_positions rowdiff_hand) 9 = Some (2, 2)"
    "map_of (matrix_positions rowdiff_hand) 4 = Some (3, 0)"
    by (simp_all add: rowdiff_hand_def)
  from get_rowdiff_trigram [OF f10 f9 f4, of Ring Middle Index "(1, 0)" "(2, 2)" "(3, 0)"]
       get_rowdiff_trigram [OF f10 f4 f9, of Ring Index Middle "(1, 0)" "(3, 0)" "(2, 2)"]
       get_rowdiff_trigram [OF f9 f4 f2] f10 f9 f4 f2 pos
  show ?thesis
    by (simp add: pair_rowdiffs_def get_rowdiff_for_bigram_def)
qed

text \<open>
  The claim as stated fails: the bigram \<open>(9, 4)\<close> resolves and classifies, key 2 has
  neither finger nor position, and the trigram \<open>(9, 4, 2)\<close> gets no classification rather
  than the 1-tuple of the first bigram.
\<close>

theorem third_key_missing_counterexample:
  "get_rowdiff rowdiff_hand [9, 4] = Inr (Some [MiddleBelowIndex2u])
   \<and> get_finger rowdiff_hand 2 = Inr None
   \<and> map_of (matrix_positions rowdiff_hand) 2 = None
   \<and> get_rowdiff rowdiff_hand [9, 4, 2] = Inr None"
  by (simp add: get_rowdiff_def get_finger_def rowdiff_hand_def from_str_def
        get_rowdiff_for_bigram_def)

subsection \<open>When the classifiers raise\<close>

lemma get_finger_valid:
  assumes "finger_names_valid h"
  shows "\<exists>f. get_finger h k = Inr f"
proof (cases "map_of (fingers h) k")
  case None
  then show ?thesis by (simp add: get_finger_def)
next
  case (Some s)
  then have "(k, s) \<in> set (fingers h)" by (rule map_of_SomeD)
  with assms have "s \<in> set ['''', ''t'', ''i'', ''m'', ''r'', ''p'']"
    by (auto simp: finger_names_valid_def list_all_iff)
  with Some show ?thesis
    by (auto simp: get_finger_def from_str_def)
qed

lemma classifiers_total:
  assumes "finger_names_valid h" "1 \<le> length ks" "length ks \<le> 3"
  shows "(\<exists>r. get_repeats_tuple h ks = Inr r) \<and> (\<exists>r. get_rowdiff h ks = Inr r)
         \<and> (\<exists>r. get_direction h ks = Inr r)"
proof -
  obtain f0 where f0: "get_finger h (ks ! 0) = Inr f0"
    using get_finger_valid [OF assms(1)] by blast
  obtain f1 where f1: "get_finger h (ks ! 1) = Inr f1"
    using get_finger_valid [OF assms(1)] by blast
  obtain f2 where f2: "get_finger h (ks ! 2) = Inr f2"
    using get_finger_valid [OF assms(1)] by blast
  from assms(2) have ne: "ks \<noteq> []" by auto
  have "\<exists>r. get_repeats_tuple h ks = Inr r"
    using f0 f1 f2 assms(2,3) by (simp add: get_repeats_tuple_def)
  moreover have "\<exists>r. get_rowdiff h ks = Inr r"
    using f0 f1 f2 assms(2,3) ne
    by (auto simp: get_rowdiff_def Let_def split: option.splits)
  moreover have "\<exists>r. get_direction h ks = Inr r"
    using f0 f1 f2 assms(2,3)
    by (auto simp: get_direction_def split: option.splits)
  ultimately show ?thesis by blast
qed

text \<open>
  C7, as the code has it. On a key sequence of one to three keys and a hand with valid
  finger names, \<open>get_repeats_tuple\<close>, \<open>get_rowdiff\<close> and \<open>get_direction\<close> return without
  raising. On a sequence of more than three keys \<open>get_rowdiff\<close> and \<open>get_direction\<close>
  raise \<open>ValueError\<close> whatever the hand holds, and \<open>get_repeats_tuple\<close> raises it
  when the hand has finger data; with an empty finger dictionary it returns no
  classification before it looks at the length.
\<close>

theorem classifiers_raise_only_on_long_sequences:
  "(finger_names_valid h \<and> 1 \<le> length ks \<and> length ks \<le> 3 \<longrightarrow>
      (\<exists>r. get_repeats_tuple h ks = Inr r) \<and> (\<exists>r. get_rowdiff h ks = Inr r)
      \<and> (\<exists>r. get_direction h ks = Inr r))
   \<and> (length ks > 3 \<longrightarrow>
        get_rowdiff h ks = Inl ValueError \<and> get_direction h ks = Inl ValueError
        \<and> get_repeats_tuple h ks = (if fingers h = [] then Inr None else Inl ValueError))"
  using classifiers_total [of h ks]
  by (auto simp: get_repeats_tuple_def get_rowdiff_def get_direction_def)

theorem classifiers_raise_only_on_long_sequences_witness:
  "finger_names_valid rowdiff_hand
   \<and> (\<exists>r. get_repeats_tuple rowdiff_hand [9, 4] = Inr r)
   \<and> (\<exists>r. get_rowdiff rowdiff_hand [9, 4] = Inr r)
   \<and> (\<exists>r. get_direction rowdiff_hand [9, 4] = Inr r)
   \<and> get_rowdiff rowdiff_hand [9, 4, 10, 2] = Inl ValueError
   \<and> get_direction rowdiff_hand [9, 4, 10, 2] = Inl ValueError
   \<and> get_repeats_tuple rowdiff_hand [9, 4, 10, 2] = Inl ValueError
   \<and> get_repeats_tuple no_fingers_hand [0, 1, 2, 3] = Inr None"
proof -
  have v: "finger_names_valid rowdiff_hand"
    by (simp add: finger_names_valid_def rowdiff_hand_def)
  have ne: "fingers rowdiff_hand \<noteq> []" "fingers no_fingers_hand = []"
    by (simp_all add: rowdiff_hand_def no_fingers_hand_def)
  from classifiers_raise_only_on_long_sequences [of rowdiff_hand "[9, 4]"]
       classifiers_raise_only_on_long_sequences [of rowdiff_hand "[9, 4, 10, 2]"]
       classifiers_raise_only_on_long_sequences [of no_fingers_hand "[0, 1, 2, 3]"] v ne
  show ?thesis by simp
qed

text \<open>
  The claim as stated fails: a four-key sequence on a hand without finger data is not
  rejected by \<open>get_repeats_tuple\<close>.
\<close>

theorem long_sequence_without_fingers_counterexample:
  "length [0, 1, 2, 3 :: int] > 3
   \<and> get_repeats_tuple no_fingers_hand [0, 1, 2, 3] = Inr None"
  by (simp add: get_repeats_tuple_def no_fingers_hand_def)

subsection \<open>Loading a saved order\<close>

lemma fresh_manager_example_init:
  "init [[0], [1], [2], [3], [4], [5], [6]] = Inr fresh_manager_example"
  by (simp add: init_def start_placing_next_ngram_def split_eq refresh_callback_def
        fresh_manager_example_def)

lemma foreign_list_mismatch:
  "set [[0], [9999], [1], [2 :: int]]
     \<noteq> set (take (length [[0], [9999], [1], [2 :: int]]) (all_ngrams fresh_manager_example))"
proof -
  have "[9999 :: int] \<in> set [[0], [9999], [1], [2 :: int]]" by simp
  moreover have "[9999 :: int] \<notin> set (take (length [[0], [9999], [1], [2 :: int]])
      (all_ngrams fresh_manager_example))"
    by (simp add: fresh_manager_example_def)
  ultimately show ?thesis by blast
qed

lemma prefix_list_match:
  "set [[0], [3], [1], [2 :: int]]
     = set (take (length [[0], [3], [1], [2 :: int]]) (all_ngrams fresh_manager_example))"
  by (simp add: fresh_manager_example_def insert_commute)

lemma full_list_match:
  "set [[6], [5], [4], [3], [2], [1], [0 :: int]]
     = set (take (length [[6], [5], [4], [3], [2], [1], [0 :: int]])
             (all_ngrams fresh_manager_example))"
  by (simp add: fresh_manager_example_def insert_commute)

text \<open>
  C3. \<open>load_state\<close> with a list of \<open>N\<close> sequences whose set differs from the set of the
  first \<open>N\<close> universe elements raises \<open>ValueError\<close> and leaves the manager as it was.
  With a list whose set equals that prefix set it succeeds, replaces \<open>ordered_ngrams\<close> by
  the list and sets the cursor to \<open>N\<close>; when \<open>N\<close> is below the universe size it begins
  placing the universe element at \<open>N\<close> (current ngram, a fresh split of the loaded list
  favouring the right side, empty undo history, one callback); when \<open>N\<close> has reached the
  universe size it only calls the callback.
\<close>

theorem load_state_validates_before_mutating:
  "(set given \<noteq> set (take (length given) (all_ngrams m)) \<longrightarrow>
      load_state m given = (Inl ValueError, m))
   \<and> (set given = set (take (length given) (all_ngrams m))
        \<and> length given < length (all_ngrams m) \<longrightarrow>
      load_state m given =
        (Inr (),
         m\<lparr>ordered_ngrams := given, current_index := length given,
           current_ngram := all_ngrams m ! length given,
           placement_state := split_ordered_ngrams_into_two_halfs given SideRight,
           current_ngram_movement_history := [],
           refresh_count := refresh_count m + 1\<rparr>))
   \<and> (set given = set (take (length given) (all_ngrams m))
        \<and> length (all_ngrams m) \<le> length given \<longrightarrow>
      load_state m given =
        (Inr (),
         m\<lparr>ordered_ngrams := given, current_index := length given,
           refresh_count := refresh_count m + 1\<rparr>))"
  by (simp add: load_state_def Let_def is_finished_def start_placing_next_ngram_def
        refresh_callback_def)

theorem load_state_validates_before_mutating_witness:
  "load_state fresh_manager_example [[0], [9999], [1], [2]] = (Inl ValueError, fresh_manager_example)
   \<and> load_state fresh_manager_example [[0], [3], [1], [2]] =
       (Inr (),
        fresh_manager_example
          \<lparr>ordered_ngrams := [[0], [3], [1], [2]], current_index := 4, current_ngram := [4],
           placement_state :=
             \<lparr> highest_low = Some [3], lowest_high = Some [1],
               low_effort_sequences = [[0], [3]], hight_effort_sequences = [[1], [2]] \<rparr>,
           current_ngram_movement_history := [], refresh_count := 2\<rparr>)
   \<and> load_state fresh_manager_example [[6], [5], [4], [3], [2], [1], [0]] =
       (Inr (),
        fresh_manager_example
          \<lparr>ordered_ngrams := [[6], [5], [4], [3], [2], [1], [0]], current_index := 7,
           refresh_count := 2\<rparr>)"
proof -
  have a: "load_state fresh_manager_example [[0], [9999], [1], [2]]
           = (Inl ValueError, fresh_manager_example)"
    using load_state_validates_before_mutating
            [of "[[0], [9999], [1], [2]]" fresh_manager_example] foreign_list_mismatch
    by blast
  have sp: "split_ordered_ngrams_into_two_halfs [[0], [3], [1], [2]] SideRight =
     \<lparr> highest_low = Some [3], lowest_high = Some [1],
       low_effort_sequences = [[0], [3]], hight_effort_sequences = [[1], [2]] \<rparr>"
    by (simp add: split_eq)
  have b: "load_state fresh_manager_example [[0], [3], [1], [2]] =
       (Inr (),
        fresh_manager_example
          \<lparr>ordered_ngrams := [[0], [3], [1], [2]], current_index := 4, current_ngram := [4],
           placement_state :=
             \<lparr> highest_low = Some [3], lowest_high = Some [1],
               low_effort_sequences = [[0], [3]], hight_effort_sequences = [[1], [2]] \<rparr>,
           current_ngram_movement_history := [], refresh_count := 2\<rparr>)"
    using load_state_validates_before_mutating
            [of "[[0], [3], [1], [2]]" fresh_manager_example] prefix_list_match sp
    by (simp add: fresh_manager_example_def insert_commute)
  have c: "load_state fresh_manager_example [[6], [5], [4], [3], [2], [1], [0]] =
       (Inr (),
        fresh_manager_example
          \<lparr>ordered_ngrams := [[6], [5], [4], [3], [2], [1], [0]], current_index := 7,
           refresh_count := 2\<rparr>)"
    using load_state_validates_before_mutating
            [of "[[6], [5], [4], [3], [2], [1], [0]]" fresh_manager_example] full_list_match
    by (simp add: fresh_manager_example_def insert_commute)
  from a b c show ?thesis by blast
qed

subsection \<open>Permutation generator\<close>

lemma set_product_repeat:
  "set (product_repeat xs n) = {ys. length ys = n \<and> set ys \<subseteq> set xs}"
proof (induction n)
  case 0
  then show ?case by auto
next
  case (Suc n)
  show ?case
  proof (intro set_eqI iffI)
    fix t assume "t \<in> set (product_repeat xs (Suc n))"
    then obtain x ys where "x \<in> set xs" "ys \<in> set (product_repeat xs n)" "t = x # ys"
      by auto
    with Suc show "t \<in> {ys. length ys = Suc n \<and> set ys \<subseteq> set xs}" by auto
  next
    fix t assume "t \<in> {ys. length ys = Suc n \<and> set ys \<subseteq> set xs}"
    then obtain x ys where t: "t = x # ys" "length ys = n" "x \<in> set xs" "set ys \<subseteq> set xs"
      by (cases t) auto
    with Suc have "ys \<in> set (product_repeat xs n)" by simp
    with t show "t \<in> set (product_repeat xs (Suc n))" by auto
  qed
qed

lemma sorted_blocks:
  fixes xs :: "'a::linorder list"
  assumes "sorted_wrt (<) xs" and "sorted_wrt (<) P"
  shows "sorted_wrt (<) (concat (map (\<lambda>x. map ((#) x) P) xs))"
  using assms(1)
proof (induction xs)
  case Nil
  then show ?case by simp
next
  case (Cons x xs)
  have blk: "sorted_wrt (<) (map ((#) x) P)"
    using assms(2) by (simp add: sorted_wrt_map)
  have cross: "\<forall>a\<in>set (map ((#) x) P). \<forall>b\<in>set (concat (map (\<lambda>x. map ((#) x) P) xs)). a < b"
    using Cons.prems by auto
  from Cons blk cross show ?case
    by (simp add: sorted_wrt_append)
qed

lemma sorted_product_repeat:
  fixes xs :: "'a::linorder list"
  shows "sorted_wrt (<) xs \<Longrightarrow> sorted_wrt (<) (product_repeat xs n)"
  by (induction n) (simp_all add: sorted_blocks)

lemma can_be_typed_iff: "can_be_typed h p = (set p \<subseteq> hand_keys h)"
  by (induction p) (auto simp: hand_keys_def map_of_eq_None_iff)

lemma permutation_is_typable_iff:
  "permutation_is_typable l r p = (set p \<subseteq> hand_keys l \<or> set p \<subseteq> hand_keys r)"
  by (auto simp: permutation_is_typable_def can_be_typed_iff)

lemma get_union_of_keys_sorted:
  "get_union_of_keys l r = sorted_list_of_set (hand_keys l \<union> hand_keys r)"
proof -
  have "hand_keys l \<union> hand_keys r = set (map fst (symbols l) @ map fst (symbols r))"
    by (simp add: hand_keys_def)
  then show ?thesis
    by (simp only: get_union_of_keys_def sorted_list_of_set_sort_remdups)
qed

lemma create_permutations_loop_eq:
  "\<forall>n\<in>set ns. 0 \<le> n \<Longrightarrow>
   create_permutations_loop l r ks ns acc =
     Inr (acc @ concat (map (\<lambda>n. filter (permutation_is_typable l r)
                                   (product_repeat ks (nat n))) ns))"
  by (induction ns arbitrary: acc) simp_all


lemma union_strictly_sorted: "sorted_wrt (<) (get_union_of_keys l r)"
  by (simp add: get_union_of_keys_sorted)

lemma set_union_of_keys: "set (get_union_of_keys l r) = hand_keys l \<union> hand_keys r"
  by (simp add: get_union_of_keys_sorted hand_keys_def)

text \<open>
  C6. For non-negative requested lengths \<open>create_permutations\<close> returns, length by
  length in the given order, the tuples of \<open>product_repeat\<close> over the union of keys that
  some single hand can type in full. The union of keys is the sorted list of the union of
  both hands' key sets, and \<open>product_repeat\<close> over it lists every tuple of the length
  exactly once in strictly increasing lexicographic order, so each block keeps that
  order. With left keys \<open>{0,1,2}\<close>, right keys \<open>{0,1,2,3}\<close> and lengths \<open>(1,)\<close> the result
  is \<open>[(0,),(1,),(2,),(3,)]\<close>.
\<close>

theorem create_permutations_enumerates_typable:
  assumes "\<forall>n\<in>set sequence_lengths. 0 \<le> n"
  shows "create_permutations l r sequence_lengths =
           Inr (concat (map (\<lambda>n. filter (\<lambda>t. set t \<subseteq> hand_keys l \<or> set t \<subseteq> hand_keys r)
                                    (product_repeat (get_union_of_keys l r) (nat n)))
                          sequence_lengths))
       \<and> get_union_of_keys l r = sorted_list_of_set (hand_keys l \<union> hand_keys r)
       \<and> sorted_wrt (<) (product_repeat (get_union_of_keys l r) k)
       \<and> set (product_repeat (get_union_of_keys l r) k) =
           {t. length t = k \<and> set t \<subseteq> hand_keys l \<union> hand_keys r}
       \<and> create_permutations permutations_left_example permutations_right_example [1] =
           Inr [[0], [1], [2], [3]]"
proof -
  have typable_eq: "permutation_is_typable l r = (\<lambda>t. set t \<subseteq> hand_keys l \<or> set t \<subseteq> hand_keys r)"
    by (rule ext) (rule permutation_is_typable_iff)
  have main: "create_permutations l r sequence_lengths =
           Inr (concat (map (\<lambda>n. filter (\<lambda>t. set t \<subseteq> hand_keys l \<or> set t \<subseteq> hand_keys r)
                                    (product_repeat (get_union_of_keys l r) (nat n)))
                          sequence_lengths))"
    using create_permutations_loop_eq [OF assms, of l r "get_union_of_keys l r" "[]"]
    by (simp add: create_permutations_def typable_eq)
  have srt: "sorted_wrt (<) (product_repeat (get_union_of_keys l r) k)"
    by (rule sorted_product_repeat) (rule union_strictly_sorted)
  have st: "set (product_repeat (get_union_of_keys l r) k) =
           {t. length t = k \<and> set t \<subseteq> hand_keys l \<union> hand_keys r}"
    by (simp add: set_product_repeat set_union_of_keys)
  have ex: "create_permutations permutations_left_example permutations_right_example [1] =
           Inr [[0], [1], [2], [3]]"
    by (simp add: create_permutations_def get_union_of_keys_def permutation_is_typable_def
          permutations_left_example_def permutations_right_example_def)
  from main get_union_of_keys_sorted srt st ex show ?thesis by blast
qed

theorem create_permutations_enumerates_typable_witness:
  "(0::int) \<le> 2
   \<and> create_permutations permutations_left_example permutations_right_example [2] =
       Inr [[0, 0], [0, 1], [0, 2], [0, 3], [1, 0], [1, 1], [1, 2], [1, 3],
            [2, 0], [2, 1], [2, 2], [2, 3], [3, 0], [3, 1], [3, 2], [3, 3]]"
proof -
  have nonneg: "\<forall>n\<in>set [2 :: int]. 0 \<le> n" by simp
  have u: "get_union_of_keys permutations_left_example permutations_right_example = [0, 1, 2, 3]"
    by (simp add: get_union_of_keys_def permutations_left_example_def
          permutations_right_example_def)
  have k: "hand_keys permutations_left_example = {0, 1, 2}"
    "hand_keys permutations_right_example = {0, 1, 2, 3}"
    by (simp_all add: hand_keys_def permutations_left_example_def permutations_right_example_def)
  from create_permutations_enumerates_typable
         [OF nonneg, of permutations_left_example permutations_right_example 0, THEN conjunct1]
  show ?thesis
    by (simp add: u k numeral_2_eq_2)
qed

subsection \<open>Placing every ngram at the default position\<close>

lemma list_index_member: "x \<in> set xs \<Longrightarrow> \<exists>i. list_index xs x = Some i"
  by (induction xs) auto

lemma mset_list_insert: "mset (list_insert xs i x) = add_mset x (mset xs)"
proof -
  have "mset (take i xs) + mset (drop i xs) = mset xs"
    by (metis append_take_drop_id mset_append)
  then show ?thesis by (simp add: list_insert_def)
qed

lemma set_list_insert: "set (list_insert xs i x) = insert x (set xs)"
  by (metis mset_list_insert set_mset_add_mset_insert set_mset_mset)

lemma length_list_insert: "length (list_insert xs i x) = Suc (length xs)"
  by (metis mset_list_insert size_add_mset size_mset)

lemma split_shape:
  "\<exists>k. split_ordered_ngrams_into_two_halfs xs side =
     \<lparr> highest_low = (if take k xs \<noteq> [] then Some (last (take k xs)) else None),
       lowest_high = (if drop k xs \<noteq> [] then Some (hd (drop k xs)) else None),
       low_effort_sequences = take k xs,
       hight_effort_sequences = drop k xs \<rparr>"
  unfolding split_eq Let_def by (rule exI) (rule refl)

lemma highest_low_member:
  assumes "highest_low (split_ordered_ngrams_into_two_halfs xs side) = Some l"
  shows "l \<in> set xs"
proof -
  from split_shape [of xs side] obtain k where
    "highest_low (split_ordered_ngrams_into_two_halfs xs side)
       = (if take k xs \<noteq> [] then Some (last (take k xs)) else None)"
    by force
  with assms have ne: "take k xs \<noteq> []" and l: "l = last (take k xs)"
    by (simp_all split: if_splits)
  from ne have "last (take k xs) \<in> set (take k xs)" by (rule last_in_set)
  with l show ?thesis by (auto dest: in_set_takeD)
qed

lemma lowest_high_member:
  assumes "lowest_high (split_ordered_ngrams_into_two_halfs xs side) = Some r"
  shows "r \<in> set xs"
proof -
  from split_shape [of xs side] obtain k where
    "lowest_high (split_ordered_ngrams_into_two_halfs xs side)
       = (if drop k xs \<noteq> [] then Some (hd (drop k xs)) else None)"
    by force
  with assms have ne: "drop k xs \<noteq> []" and r: "r = hd (drop k xs)"
    by (simp_all split: if_splits)
  from ne have "hd (drop k xs) \<in> set (drop k xs)" by (rule hd_in_set)
  with r show ?thesis by (auto dest: in_set_dropD)
qed

lemma insert_current_ok:
  assumes left_ok: "\<And>l. left_of_current m = Some l \<Longrightarrow> l \<in> set (ordered_ngrams m)"
    and right_ok: "\<And>r. right_of_current m = Some r \<Longrightarrow> r \<in> set (ordered_ngrams m)"
  shows "\<exists>ys. insert_current m = Inr ys
            \<and> mset ys = add_mset (current_ngram m) (mset (ordered_ngrams m))"
proof (cases "left_of_current m")
  case (Some l)
  from left_ok [OF Some] have "\<exists>i. list_index (ordered_ngrams m) l = Some i"
    by (rule list_index_member)
  then obtain i where i: "list_index (ordered_ngrams m) l = Some i" ..
  have "insert_current m = Inr (list_insert (ordered_ngrams m) (i + 1) (current_ngram m))"
    using Some i by (simp add: insert_current_def)
  moreover have "mset (list_insert (ordered_ngrams m) (i + 1) (current_ngram m))
      = add_mset (current_ngram m) (mset (ordered_ngrams m))"
    by (rule mset_list_insert)
  ultimately show ?thesis by blast
next
  case None
  show ?thesis
  proof (cases "right_of_current m")
    case (Some r)
    from right_ok [OF Some] have "\<exists>i. list_index (ordered_ngrams m) r = Some i"
      by (rule list_index_member)
    then obtain i where i: "list_index (ordered_ngrams m) r = Some i" ..
    have "insert_current m = Inr (list_insert (ordered_ngrams m) i (current_ngram m))"
      using None Some i by (simp add: insert_current_def)
    moreover have "mset (list_insert (ordered_ngrams m) i (current_ngram m))
        = add_mset (current_ngram m) (mset (ordered_ngrams m))"
      by (rule mset_list_insert)
    ultimately show ?thesis by blast
  next
    case no_right: None
    have "insert_current m = Inr (ordered_ngrams m @ [current_ngram m])"
      using None no_right by (simp add: insert_current_def)
    then show ?thesis by simp
  qed
qed

lemma default_placing_step:
  assumes "default_placing perms k m" and "k < length perms"
  shows "\<exists>r m'. place_current_ngram m = (Inr r, m') \<and> default_placing perms (Suc k) m'"
proof -
  from assms have all: "all_ngrams m = perms" and cur: "current_index m = k"
    and len: "length (ordered_ngrams m) = k"
    and ms: "mset (ordered_ngrams m) = mset (take k perms)"
    and cn: "current_ngram m = perms ! k"
    and ps: "placement_state m = split_ordered_ngrams_into_two_halfs (ordered_ngrams m) SideRight"
    by (auto simp: default_placing_def)
  have nf: "\<not> is_finished m" using all len assms(2) by (simp add: is_finished_def)
  have lm: "l \<in> set (ordered_ngrams m)" if "left_of_current m = Some l" for l
    using that highest_low_member [of "ordered_ngrams m" SideRight l]
    by (simp add: left_of_current_def ps)
  have rm: "r \<in> set (ordered_ngrams m)" if "right_of_current m = Some r" for r
    using that lowest_high_member [of "ordered_ngrams m" SideRight r]
    by (simp add: right_of_current_def ps)
  from insert_current_ok [of m, OF lm rm]
  obtain ys where ys: "insert_current m = Inr ys"
    and mys: "mset ys = add_mset (current_ngram m) (mset (ordered_ngrams m))"
    by blast
  have lys: "length ys = Suc k"
    using mys len by (metis size_add_mset size_mset)
  have tk: "mset ys = mset (take (Suc k) perms)"
    using mys ms cn assms(2) by (simp add: take_Suc_conv_app_nth)
  show ?thesis
  proof (cases "Suc k < length perms")
    case True
    then show ?thesis
      using nf ys lys tk all cur
      by (simp add: place_current_ngram_def Let_def is_finished_def
            start_placing_next_ngram_def refresh_callback_def default_placing_def)
  next
    case False
    then show ?thesis
      using nf ys lys tk all cur
      by (simp add: place_current_ngram_def Let_def is_finished_def
            refresh_callback_def default_placing_def)
  qed
qed

lemma default_placing_run:
  "default_placing perms k m \<Longrightarrow> k + n = length perms \<Longrightarrow>
   \<exists>m'. place_times n m = Inr m' \<and> default_placing perms (length perms) m'"
proof (induction n arbitrary: k m)
  case 0
  then show ?case by simp
next
  case (Suc n)
  then have "k < length perms" by simp
  from default_placing_step [OF Suc.prems(1) this]
  obtain r m1 where st: "place_current_ngram m = (Inr r, m1)"
    and d1: "default_placing perms (Suc k) m1" by blast
  from Suc.prems(2) have "Suc k + n = length perms" by simp
  from Suc.IH [OF d1 this] st show ?case by simp
qed

lemma default_placing_init:
  "perms \<noteq> [] \<Longrightarrow> \<exists>m0. init perms = Inr m0 \<and> default_placing perms 0 m0"
  by (simp add: init_def start_placing_next_ngram_def refresh_callback_def
        default_placing_def)

text \<open>
  C4. For every non-empty universe of size \<open>N\<close>, the constructor succeeds and \<open>N\<close> calls
  of \<open>place_current_ngram\<close> in a row, with no narrowing, all succeed and leave a manager
  with \<open>N\<close> ordered ngrams that is finished and whose order is a rearrangement of the
  universe: every universe element occurs in it as often as in the universe, which is
  exactly once when the universe has no repeated element.
\<close>

theorem place_all_ngrams_round_trip:
  assumes "perms \<noteq> []"
  shows "\<exists>m0 m. init perms = Inr m0 \<and> place_times (length perms) m0 = Inr m
           \<and> length (ordered_ngrams m) = length perms \<and> is_finished m
           \<and> mset (ordered_ngrams m) = mset perms
           \<and> (distinct perms \<longrightarrow> (\<forall>x\<in>set perms. count_list (ordered_ngrams m) x = 1))"
proof -
  from default_placing_init [OF assms]
  obtain m0 where i: "init perms = Inr m0" and d0: "default_placing perms 0 m0" by blast
  from default_placing_run [OF d0, of "length perms"]
  obtain m where r: "place_times (length perms) m0 = Inr m"
    and d: "default_placing perms (length perms) m" by auto
  from d have l: "length (ordered_ngrams m) = length perms"
    and f: "is_finished m" and ms: "mset (ordered_ngrams m) = mset perms"
    by (simp_all add: default_placing_def is_finished_def)
  have "\<forall>x\<in>set perms. count_list (ordered_ngrams m) x = 1" if "distinct perms"
  proof
    fix x assume "x \<in> set perms"
    with that have "count (mset perms) x = 1" by (simp add: distinct_count_atmost_1)
    with ms show "count_list (ordered_ngrams m) x = 1" by (metis count_mset)
  qed
  with i r l f ms show ?thesis by blast
qed

lemma three_placements_run:
  "\<exists>m0 m. init [[0], [1], [2]] = Inr m0 \<and> place_times 3 m0 = Inr m
      \<and> ordered_ngrams m = [[1], [2], [0]]"
  by (simp add: init_def start_placing_next_ngram_def refresh_callback_def split_eq
        numeral_3_eq_3 place_current_ngram_def is_finished_def insert_current_def
        left_of_current_def right_of_current_def list_insert_def)

theorem place_all_ngrams_round_trip_witness:
  "[[0], [1], [2 :: int]] \<noteq> []
   \<and> (\<exists>m0 m. init [[0], [1], [2]] = Inr m0 \<and> place_times 3 m0 = Inr m
         \<and> ordered_ngrams m = [[1], [2], [0]]
         \<and> length (ordered_ngrams m) = 3 \<and> is_finished m
         \<and> mset (ordered_ngrams m) = mset [[0], [1], [2]]
         \<and> count_list (ordered_ngrams m) [0] = 1
         \<and> count_list (ordered_ngrams m) [1] = 1
         \<and> count_list (ordered_ngrams m) [2] = 1)"
proof -
  have ne: "[[0], [1], [2 :: int]] \<noteq> []" by simp
  have len3: "length [[0], [1], [2 :: int]] = 3" by simp
  have dist: "distinct [[0], [1], [2 :: int]]" by simp
  from place_all_ngrams_round_trip [OF ne]
  obtain m0 m where a: "init [[0], [1], [2]] = Inr m0"
    and b0: "place_times (length [[0], [1], [2 :: int]]) m0 = Inr m"
    and c0: "length (ordered_ngrams m) = length [[0], [1], [2 :: int]]"
    and c: "is_finished m" "mset (ordered_ngrams m) = mset [[0], [1], [2]]"
    and d0: "distinct [[0], [1], [2 :: int]] \<longrightarrow>
              (\<forall>x\<in>set [[0], [1], [2 :: int]]. count_list (ordered_ngrams m) x = 1)"
    by blast
  from b0 len3 have b: "place_times 3 m0 = Inr m" by (simp only:)
  from c0 len3 have l: "length (ordered_ngrams m) = 3" by (simp only:)
  from d0 dist have d: "\<forall>x\<in>set [[0], [1], [2 :: int]]. count_list (ordered_ngrams m) x = 1"
    by blast
  from three_placements_run obtain n0 n where a': "init [[0], [1], [2]] = Inr n0"
    and b': "place_times 3 n0 = Inr n" and o: "ordered_ngrams n = [[1], [2], [0]]"
    by blast
  from a a' have "n0 = m0" by simp
  with b b' have "n = m" by simp
  with o have o': "ordered_ngrams m = [[1], [2], [0]]" by simp
  from d have "count_list (ordered_ngrams m) [0] = 1" "count_list (ordered_ngrams m) [1] = 1"
    "count_list (ordered_ngrams m) [2] = 1" by simp_all
  with a b c l o' ne show ?thesis by blast
qed

subsection \<open>The ordered ngrams are the placed prefix of the universe\<close>

lemma inv_init: "init perms = Inr m \<Longrightarrow> prefix_invariant perms m"
  by (auto simp: init_def start_placing_next_ngram_def refresh_callback_def
        prefix_invariant_def is_finished_def split: if_splits)

lemma inv_start_placing:
  assumes "all_ngrams m = perms" "length (ordered_ngrams m) = current_index m"
    "set (ordered_ngrams m) = set (take (current_index m) perms)"
    "start_placing_next_ngram m = (res, m')"
    "current_index m < length perms"
  shows "prefix_invariant perms m'"
  using assms
  by (auto simp: start_placing_next_ngram_def refresh_callback_def prefix_invariant_def
        is_finished_def)

lemma insert_current_shape:
  assumes "insert_current m = Inr ys"
  shows "length ys = Suc (length (ordered_ngrams m))
         \<and> set ys = insert (current_ngram m) (set (ordered_ngrams m))"
  using assms
  by (auto simp: insert_current_def length_list_insert set_list_insert
        split: option.splits)

lemma inv_place:
  assumes inv: "prefix_invariant perms m" and st: "place_current_ngram m = (res, m')"
  shows "prefix_invariant perms m'"
proof (cases "is_finished m")
  case True
  with st inv show ?thesis by (simp add: place_current_ngram_def)
next
  case nf: False
  show ?thesis
  proof (cases "insert_current m")
    case (Inl e)
    with nf st inv show ?thesis by (simp add: place_current_ngram_def)
  next
    case (Inr ys)
    from inv have all: "all_ngrams m = perms"
      and len: "length (ordered_ngrams m) = current_index m"
      and st0: "set (ordered_ngrams m) = set (take (current_index m) perms)"
      and cn: "current_ngram m = perms ! current_index m"
      using nf by (simp_all add: prefix_invariant_def)
    from nf all len have lt: "current_index m < length perms"
      by (simp add: is_finished_def)
    from insert_current_shape [OF Inr] len
    have lys: "length ys = Suc (current_index m)"
      and sys: "set ys = insert (current_ngram m) (set (ordered_ngrams m))" by simp_all
    from sys st0 cn lt have sys': "set ys = set (take (Suc (current_index m)) perms)"
      by (simp add: take_Suc_conv_app_nth)
    define m1 where "m1 = m\<lparr>ordered_ngrams := ys, current_index := current_index m + 1\<rparr>"
    have m1: "all_ngrams m1 = perms" "length (ordered_ngrams m1) = current_index m1"
      "set (ordered_ngrams m1) = set (take (current_index m1) perms)"
      using all lys sys' by (simp_all add: m1_def)
    show ?thesis
    proof (cases "is_finished m1")
      case True
      then have "m' = refresh_callback m1"
        using st nf Inr by (simp add: place_current_ngram_def Let_def m1_def)
      with m1 True show ?thesis
        by (simp add: prefix_invariant_def refresh_callback_def is_finished_def)
    next
      case False
      with m1 have lt1: "current_index m1 < length perms" by (simp add: is_finished_def)
      obtain r2 m2 where sp: "start_placing_next_ngram m1 = (r2, m2)" by force
      from inv_start_placing [OF m1 sp lt1] have i2: "prefix_invariant perms m2" .
      from sp lt1 m1(1) have "r2 = Inr ()"
        by (auto simp: start_placing_next_ngram_def)
      with st nf Inr False sp have "m' = m2"
        by (simp add: place_current_ngram_def Let_def m1_def)
      with i2 show ?thesis by simp
    qed
  qed
qed

lemma inv_moves:
  assumes "prefix_invariant perms m"
  shows "prefix_invariant perms (move_left m)" "prefix_invariant perms (move_right m)"
    "prefix_invariant perms (move_back m)"
  using assms
  by (simp_all add: move_left_def move_right_def move_back_def prefix_invariant_def
        refresh_callback_def is_finished_def)

lemma inv_refresh: "prefix_invariant perms m \<Longrightarrow> prefix_invariant perms (refresh_callback m)"
  by (simp add: prefix_invariant_def refresh_callback_def is_finished_def)

lemma inv_reset:
  assumes inv: "prefix_invariant perms m" and st: "reset_current_ngram m = (res, m')"
  shows "prefix_invariant perms m'"
proof (cases "is_finished m")
  case True
  with st inv show ?thesis by (simp add: reset_current_ngram_def)
next
  case False
  from inv have m: "all_ngrams m = perms" "length (ordered_ngrams m) = current_index m"
    "set (ordered_ngrams m) = set (take (current_index m) perms)"
    by (simp_all add: prefix_invariant_def)
  with False have lt: "current_index m < length perms" by (simp add: is_finished_def)
  obtain r2 m2 where sp: "start_placing_next_ngram m = (r2, m2)" by force
  from inv_start_placing [OF m sp lt] have i2: "prefix_invariant perms m2" .
  from sp lt m(1) have "r2 = Inr ()" by (auto simp: start_placing_next_ngram_def)
  with st False sp have "m' = refresh_callback m2"
    by (simp add: reset_current_ngram_def)
  with i2 show ?thesis by (simp add: inv_refresh)
qed

lemma inv_previous:
  assumes dist: "distinct perms"
    and inv: "prefix_invariant perms m" and st: "previous_ngram m = (res, m')"
  shows "prefix_invariant perms m'"
proof (cases "current_index m < 1")
  case True
  with st have "reset_current_ngram m = (res, m')" by (simp add: previous_ngram_def)
  with inv show ?thesis by (rule inv_reset)
next
  case ge: False
  from inv have all: "all_ngrams m = perms"
    and len: "length (ordered_ngrams m) = current_index m"
    and st0: "set (ordered_ngrams m) = set (take (current_index m) perms)"
    by (simp_all add: prefix_invariant_def)
  define k where "k = current_index m - 1"
  from ge have ck: "current_index m = Suc k" by (simp add: k_def)
  show ?thesis
  proof (cases "k < length perms")
    case False
    with st ge all inv show ?thesis by (simp add: previous_ngram_def k_def)
  next
    case lt: True
    define prev where "prev = perms ! k"
    from lt have tk: "take (Suc k) perms = take k perms @ [prev]"
      by (simp add: take_Suc_conv_app_nth prev_def)
    from dist have "distinct (take (Suc k) perms)" by (rule distinct_take)
    with tk have notin: "prev \<notin> set (take k perms)" by simp
    from st0 ck tk have mem: "prev \<in> set (ordered_ngrams m)" by simp
    have "card (set (ordered_ngrams m)) = length (ordered_ngrams m)"
      using st0 ck len lt dist by (simp add: distinct_card)
    then have dord: "distinct (ordered_ngrams m)" by (rule card_distinct)
    define m1 where "m1 = m\<lparr>ordered_ngrams := remove1 prev (ordered_ngrams m),
                             current_index := current_index m - 1\<rparr>"
    have "set (remove1 prev (ordered_ngrams m)) = set (ordered_ngrams m) - {prev}"
      using dord by (rule set_remove1_eq)
    also have "\<dots> = set (take k perms)" using st0 ck tk notin by auto
    finally have s1: "set (ordered_ngrams m1) = set (take (current_index m1) perms)"
      by (simp add: m1_def k_def)
    have l1: "length (ordered_ngrams m1) = current_index m1"
      using mem len by (simp add: m1_def length_remove1)
    have a1: "all_ngrams m1 = perms" using all by (simp add: m1_def)
    have lt1: "current_index m1 < length perms" using lt by (simp add: m1_def k_def)
    obtain r2 m2 where sp: "start_placing_next_ngram m1 = (r2, m2)" by force
    from inv_start_placing [OF a1 l1 s1 sp lt1] have i2: "prefix_invariant perms m2" .
    from sp lt1 a1 have "r2 = Inr ()" by (auto simp: start_placing_next_ngram_def)
    with st ge lt mem sp all have "m' = refresh_callback m2"
      by (simp add: previous_ngram_def Let_def m1_def k_def prev_def)
    with i2 show ?thesis by (simp add: inv_refresh)
  qed
qed

lemma inv_load:
  assumes inv: "prefix_invariant perms m" and st: "load_state m given = (res, m')"
  shows "prefix_invariant perms m'"
proof (cases "set given = set (take (length given) (all_ngrams m))")
  case False
  with st inv show ?thesis by (simp add: load_state_def Let_def)
next
  case True
  from inv have all: "all_ngrams m = perms" by (simp add: prefix_invariant_def)
  define m1 where "m1 = m\<lparr>ordered_ngrams := given, current_index := length given\<rparr>"
  have m1: "all_ngrams m1 = perms" "length (ordered_ngrams m1) = current_index m1"
    "set (ordered_ngrams m1) = set (take (current_index m1) perms)"
    using all True by (simp_all add: m1_def)
  show ?thesis
  proof (cases "is_finished m1")
    case fin: True
    with st True have "m' = refresh_callback m1"
      by (simp add: load_state_def Let_def m1_def)
    with m1 fin show ?thesis
      by (simp add: prefix_invariant_def refresh_callback_def is_finished_def)
  next
    case nf: False
    with m1 have lt1: "current_index m1 < length perms" by (simp add: is_finished_def)
    from st True nf have sp: "start_placing_next_ngram m1 = (res, m')"
      by (simp add: load_state_def Let_def m1_def)
    from inv_start_placing [OF m1 sp lt1] show ?thesis .
  qed
qed

lemma reachable_invariant:
  assumes "distinct perms" and "reachable perms m"
  shows "prefix_invariant perms m"
  using assms(2)
proof (induction rule: reachable.induct)
  case (constructed m)
  then show ?case by (rule inv_init)
next
  case (placed m res m')
  then show ?case by (blast intro: inv_place)
next
  case (moved_left m)
  then show ?case by (simp add: inv_moves)
next
  case (moved_right m)
  then show ?case by (simp add: inv_moves)
next
  case (moved_back m)
  then show ?case by (simp add: inv_moves)
next
  case (reset m res_unit m')
  then show ?case by (blast intro: inv_reset)
next
  case (previous m res_unit m')
  with assms(1) show ?case by (blast intro: inv_previous)
next
  case (loaded m new_ordered_ngrams res_unit m')
  then show ?case by (blast intro: inv_load)
qed

text \<open>
  C9. When the universe has pairwise different elements, every manager reached from the
  constructor by \<open>place_current_ngram\<close>, \<open>move_left\<close>, \<open>move_right\<close>, \<open>move_back\<close>,
  \<open>reset_current_ngram\<close>, \<open>previous_ngram\<close> and \<open>load_state\<close> keeps the universe, has exactly
  cursor-many ordered ngrams, and their set is the set of the first cursor-many universe
  elements.
\<close>

theorem ordered_ngrams_is_placed_prefix:
  assumes "distinct perms" and "reachable perms m"
  shows "all_ngrams m = perms
       \<and> length (ordered_ngrams m) = current_index m
       \<and> set (ordered_ngrams m) = set (take (current_index m) (all_ngrams m))"
  using reachable_invariant [OF assms] by (simp add: prefix_invariant_def)

lemma finished_manager_example_reachable: "reachable [[0]] finished_manager_example"
proof -
  obtain m0 where i: "init [[0]] = Inr m0"
    by (simp add: init_def start_placing_next_ngram_def)
  from i have "reachable [[0]] m0" by (rule reachable.constructed)
  moreover from i have "place_current_ngram m0 = (Inr (Some [0]), finished_manager_example)"
    by (rule finished_manager_example_reached)
  ultimately show ?thesis by (rule reachable.placed)
qed

theorem ordered_ngrams_is_placed_prefix_witness:
  "distinct [[0 :: int]] \<and> reachable [[0]] finished_manager_example
   \<and> all_ngrams finished_manager_example = [[0]]
   \<and> length (ordered_ngrams finished_manager_example) = current_index finished_manager_example
   \<and> set (ordered_ngrams finished_manager_example)
       = set (take (current_index finished_manager_example) (all_ngrams finished_manager_example))"
proof -
  have d: "distinct [[0 :: int]]" by simp
  from ordered_ngrams_is_placed_prefix [OF d finished_manager_example_reachable]
       d finished_manager_example_reachable
  show ?thesis by blast
qed

end
